theory Spec2Isabelle
  imports Main "HOL-Library.Word"
begin

section \<open>Data model of the chat component\<close>

text \<open>
  The component modelled is \<open>ChatComponent\<close> (the variant that also keeps
  \<open>currentUser\<close>); \<open>ChatComponentWith\<close> in \<open>ChatComponent.tsx\<close> has the same
  callbacks without the \<open>currentUser\<close> field. Console logging is not part of the
  model. JavaScript truthiness is written out: a string is truthy when it is not
  empty, a nullable object when it is not \<open>null\<close>.
\<close>

datatype MessageType = TEXT | FILE | SYSTEM

record sender =
  sender_id :: int
  sender_name :: string
  sender_profileImageUrl :: "string option"

record file_info =
  file_url :: string
  file_name :: string
  file_size :: nat

record message =
  msg_type :: MessageType
  msg_sender :: "sender option"
  msg_content :: "string option"
  msg_file :: "file_info option"
  msg_sentAt :: int

record ChatRoom =
  room_id :: string
  room_name :: string
  participantsCount :: nat
  unreadMessageCount :: nat
  lastMessage :: string
  timeAgo :: string

datatype UserStatus = ACTIVE | INCOMPLETE_PROFILE

datatype SignInProvider = KAKAO | APPLE

datatype UserGrade = First | Second | Third

record User =
  user_id :: int
  status :: UserStatus
  provider :: SignInProvider
  schoolId :: int
  schoolName :: int
  grade :: UserGrade
  className :: string
  fullName :: string
  profileImageUrl :: string
  backgroundImageUrl :: string
  isClassPublic :: bool
  isTimetablePublic :: bool
  notificationsEnabled :: bool

text \<open>The browser's \<open>File\<close> object, as far as \<open>sendFileMessage\<close> reads it.\<close>

record file_ref =
  fileName :: string
  fileType :: string
  fileSize :: nat

type_synonym bytes = "8 word list"

text \<open>
  A socket handle is the object returned by \<open>io(...)\<close>; handles are told apart by
  a number.
\<close>

type_synonym sock = nat

text \<open>The nine \<open>useState\<close> cells of the component.\<close>

record state =
  socket :: "sock option"
  authToken :: string
  chatRooms :: "ChatRoom list"
  currentRoom :: "string option"
  messages :: "message list"
  inputMessage :: string
  "file" :: "file_ref option"
  isConnected :: bool
  currentUser :: "User option"

definition initial :: state where
  "initial = \<lparr> socket = None, authToken = [], chatRooms = [], currentRoom = None,
     messages = [], inputMessage = [], file = None, isConnected = False,
     currentUser = None \<rparr>"

section \<open>Outgoing effects\<close>

text \<open>\<open>ChatEvents.FromClient\<close> with the payload each callback sends.\<close>

datatype client_event =
    SendTextMessage string string
  | SendFileMessage string string string nat bytes
  | JoinRoom string
  | LeaveRoom string

text \<open>
  What a callback does to the outside: emit an event on a socket, open a socket
  with a token (\<open>io\<close> on the \<open>/chat\<close> namespace), disconnect a socket, start
  reading a file, or issue a GET with a bearer token.
\<close>

record pending_read =
  pr_socket :: sock
  pr_room :: string
  pr_file :: file_ref

datatype effect =
    Emit sock client_event
  | Io sock string
  | Disconnect sock
  | ReadAsArrayBuffer pending_read
  | HttpGet string string

definition truthy :: "string option \<Rightarrow> bool" where
  "truthy x = (case x of None \<Rightarrow> False | Some r \<Rightarrow> r \<noteq> [])"

section \<open>Room membership\<close>

definition leaveRoom :: "state \<Rightarrow> state \<times> effect list" where
  "leaveRoom s =
     (if socket s \<noteq> None \<and> truthy (currentRoom s)
      then (s\<lparr>currentRoom := None, messages := []\<rparr>,
            [Emit (the (socket s)) (LeaveRoom (the (currentRoom s)))])
      else (s, []))"

definition joinRoom :: "string \<Rightarrow> state \<Rightarrow> state \<times> effect list" where
  "joinRoom roomId s =
     (if socket s \<noteq> None \<and> roomId \<noteq> []
      then (let (s1, left) = (if truthy (currentRoom s) then leaveRoom s else (s, []))
            in (s1\<lparr>currentRoom := Some roomId, messages := []\<rparr>,
                left @ [Emit (the (socket s)) (JoinRoom roomId)]))
      else (s, []))"

section \<open>Transport connector\<close>

text \<open>
  \<open>connectSocket\<close>: \<open>newSocket\<close> is the handle that \<open>io\<close> returns. The callback
  opens it with the current token and stores it with \<open>setSocket\<close>; it does nothing
  when the token is empty. It contains no call of \<open>disconnect\<close>.
\<close>

definition connectSocket :: "sock \<Rightarrow> state \<Rightarrow> state \<times> effect list" where
  "connectSocket newSocket s =
     (if authToken s \<noteq> []
      then (s\<lparr>socket := Some newSocket\<rparr>, [Io newSocket (authToken s)])
      else (s, []))"

text \<open>
  The handlers that \<open>connectSocket\<close> registers on the new socket: the three
  socket.io events \<open>connect\<close>, \<open>connect_error\<close>, \<open>disconnect\<close> and the
  three of \<open>ChatEvents.FromServer\<close>.
\<close>

datatype socket_event =
    Ev_connect
  | Ev_connect_error
  | Ev_disconnect
  | NewMessage message
  | NewMessages "message list"
  | Exception

fun on_event :: "socket_event \<Rightarrow> state \<Rightarrow> state" where
  "on_event Ev_connect s = s\<lparr>isConnected := True\<rparr>"
| "on_event Ev_connect_error s = s\<lparr>isConnected := False\<rparr>"
| "on_event Ev_disconnect s = s\<lparr>isConnected := False\<rparr>"
| "on_event (NewMessage m) s = s\<lparr>messages := messages s @ [m]\<rparr>"
| "on_event (NewMessages newMessages) s = s\<lparr>messages := messages s @ newMessages\<rparr>"
| "on_event Exception s = s"

text \<open>
  The effect hook keyed on \<open>connectSocket\<close> (which changes with \<open>authToken\<close>).
  Its cleanup disconnects the handle that the previous run captured: \<open>captured\<close>
  is the value \<open>socket\<close> had in the render in which that run was created. Its
  body calls \<open>connectSocket\<close>. \<open>useEffect_cleanup\<close> is the cleanup alone;
  \<open>useEffect_connect\<close> is the cleanup followed at once by the body. On a change
  of the token the hook that fetches the user runs between the two: that order
  is the cleanup, \<open>useEffect_fetchUserInfo\<close>, then \<open>connectSocket\<close>.
\<close>

definition useEffect_cleanup :: "sock option \<Rightarrow> state \<Rightarrow> state \<times> effect list" where
  "useEffect_cleanup captured s =
     (s, (case captured of None \<Rightarrow> [] | Some old \<Rightarrow> [Disconnect old]))"

definition useEffect_connect :: "sock option \<Rightarrow> sock \<Rightarrow> state \<Rightarrow> state \<times> effect list" where
  "useEffect_connect captured newSocket s =
     (let (s1, opened) = connectSocket newSocket s
      in (s1, (case captured of None \<Rightarrow> [] | Some old \<Rightarrow> [Disconnect old]) @ opened))"

text \<open>
  The transport seen from the trace of effects: \<open>io\<close> opens a handle, \<open>disconnect\<close>
  closes it, nothing else does.
\<close>

fun transport :: "sock list \<Rightarrow> effect \<Rightarrow> sock list" where
  "transport opened (Io h token) = opened @ [h]"
| "transport opened (Disconnect h) = removeAll h opened"
| "transport opened (Emit h e) = opened"
| "transport opened (ReadAsArrayBuffer p) = opened"
| "transport opened (HttpGet path token) = opened"

definition open_after :: "sock list \<Rightarrow> effect list \<Rightarrow> sock list" where
  "open_after opened es = foldl transport opened es"

section \<open>Session controller: fetches and exit\<close>

text \<open>
  The two fetches are split at their \<open>await\<close>. The first half issues the GET
  with the bearer token; the hook on \<open>authToken\<close> issues the one for the user
  only when the token is not empty. The second half runs when the request has
  ended, on the state of that moment: \<open>Some\<close> the body on success, \<open>None\<close> when
  the request throws (the \<open>catch\<close> only logs).
\<close>

definition useEffect_fetchUserInfo :: "state \<Rightarrow> state \<times> effect list" where
  "useEffect_fetchUserInfo s =
     (if authToken s \<noteq> [] then (s, [HttpGet ''/user'' (authToken s)]) else (s, []))"

definition fetchUserInfo_resume :: "User option \<Rightarrow> state \<Rightarrow> state \<times> effect list" where
  "fetchUserInfo_resume response s =
     ((case response of Some u \<Rightarrow> s\<lparr>currentUser := Some u\<rparr> | None \<Rightarrow> s), [])"

definition fetchChatRooms :: "state \<Rightarrow> state \<times> effect list" where
  "fetchChatRooms s = (s, [HttpGet ''/chat/rooms'' (authToken s)])"

definition fetchChatRooms_resume :: "ChatRoom list option \<Rightarrow> state \<Rightarrow> state \<times> effect list" where
  "fetchChatRooms_resume response s =
     ((case response of Some rooms \<Rightarrow> s\<lparr>chatRooms := rooms\<rparr> | None \<Rightarrow> s), [])"

definition exitChatApplication :: "state \<Rightarrow> state \<times> effect list" where
  "exitChatApplication s =
     (s\<lparr>authToken := [], chatRooms := [], currentRoom := None, messages := [],
        isConnected := False, currentUser := None\<rparr>,
      (case socket s of None \<Rightarrow> [] | Some h \<Rightarrow> [Disconnect h]))"

section \<open>Message channel\<close>

definition sendTextMessage :: "state \<Rightarrow> state \<times> effect list" where
  "sendTextMessage s =
     (if socket s \<noteq> None \<and> inputMessage s \<noteq> [] \<and> truthy (currentRoom s)
      then (s\<lparr>inputMessage := []\<rparr>,
            [Emit (the (socket s))
               (SendTextMessage (the (currentRoom s)) (inputMessage s))])
      else (s, []))"

text \<open>The acknowledgment callbacks of both sends only log the response.\<close>

definition acknowledged :: "string \<Rightarrow> state \<Rightarrow> state \<times> effect list" where
  "acknowledged response s = (s, [])"

text \<open>
  \<open>sendFileMessage\<close> starts a \<open>FileReader\<close>; the \<open>onload\<close> closure keeps the
  socket, room and file of the call. The reader ends with \<open>OnError\<close> (no handler
  is registered, \<open>onload\<close> never runs) or with \<open>OnLoad e\<close>, where \<open>e\<close> is
  \<open>None\<close> for a missing \<open>e.target\<close> and \<open>Some r\<close> for \<open>e.target.result = r\<close>.
\<close>

definition sendFileMessage :: "state \<Rightarrow> state \<times> effect list" where
  "sendFileMessage s =
     (if socket s \<noteq> None \<and> file s \<noteq> None \<and> truthy (currentRoom s)
      then (s, [ReadAsArrayBuffer \<lparr>pr_socket = the (socket s),
                  pr_room = the (currentRoom s), pr_file = the (file s)\<rparr>])
      else (s, []))"

datatype reader_event = OnError | OnLoad "bytes option option"

definition reader_onload :: "pending_read \<Rightarrow> bytes option option \<Rightarrow> state \<Rightarrow> state \<times> effect list" where
  "reader_onload p e s =
     (case e of
        Some (Some arrayBuffer) \<Rightarrow>
          (s\<lparr>file := None\<rparr>,
           [Emit (pr_socket p)
              (SendFileMessage (pr_room p) (fileName (pr_file p)) (fileType (pr_file p))
                 (fileSize (pr_file p)) arrayBuffer)])
      | _ \<Rightarrow> (s, []))"

definition reader_done :: "pending_read \<Rightarrow> reader_event \<Rightarrow> state \<Rightarrow> state \<times> effect list" where
  "reader_done p ev s =
     (case ev of OnError \<Rightarrow> (s, []) | OnLoad e \<Rightarrow> reader_onload p e s)"

section \<open>The component as a transition system\<close>

text \<open>
  Everything that can happen to the component: the three input fields, the
  callbacks, the effect hook, the events of a socket and the completions of the
  asynchronous requests. A socket event can only be delivered once a socket has
  been created; \<open>connectSocket\<close> stores the handle in the same call that
  registers the handlers, and no callback sets \<open>socket\<close> back to \<open>null\<close>.
  Every other action may occur in any state. The runs of the two hooks that
  follow a change of \<open>authToken\<close> (by typing, or by the exit clearing it) are
  actions of their own.
\<close>

datatype action =
    Type_authToken string
  | Type_inputMessage string
  | Choose_file "file_ref option"
  | Call_connectSocket sock
  | Run_useEffect "sock option" sock
  | Run_cleanup "sock option"
  | Socket_event socket_event
  | Run_useEffect_user
  | Resume_fetchUserInfo "User option"
  | Call_fetchChatRooms
  | Resume_fetchChatRooms "ChatRoom list option"
  | Call_leaveRoom
  | Call_joinRoom string
  | Call_sendTextMessage
  | Call_sendFileMessage
  | Reader_done pending_read reader_event
  | Acknowledged string
  | Call_exitChatApplication

fun enabled :: "action \<Rightarrow> state \<Rightarrow> bool" where
  "enabled (Socket_event e) s = (socket s \<noteq> None)"
| "enabled a s = True"

fun step :: "action \<Rightarrow> state \<Rightarrow> state \<times> effect list" where
  "step (Type_authToken t) s = (s\<lparr>authToken := t\<rparr>, [])"
| "step (Type_inputMessage t) s = (s\<lparr>inputMessage := t\<rparr>, [])"
| "step (Choose_file f) s = (s\<lparr>file := f\<rparr>, [])"
| "step (Call_connectSocket newSocket) s = connectSocket newSocket s"
| "step (Run_useEffect captured newSocket) s = useEffect_connect captured newSocket s"
| "step (Run_cleanup captured) s = useEffect_cleanup captured s"
| "step (Socket_event e) s = (on_event e s, [])"
| "step Run_useEffect_user s = useEffect_fetchUserInfo s"
| "step (Resume_fetchUserInfo response) s = fetchUserInfo_resume response s"
| "step Call_fetchChatRooms s = fetchChatRooms s"
| "step (Resume_fetchChatRooms response) s = fetchChatRooms_resume response s"
| "step Call_leaveRoom s = leaveRoom s"
| "step (Call_joinRoom roomId) s = joinRoom roomId s"
| "step Call_sendTextMessage s = sendTextMessage s"
| "step Call_sendFileMessage s = sendFileMessage s"
| "step (Reader_done p ev) s = reader_done p ev s"
| "step (Acknowledged response) s = acknowledged response s"
| "step Call_exitChatApplication s = exitChatApplication s"

fun run :: "action list \<Rightarrow> state \<Rightarrow> state \<times> effect list" where
  "run [] s = (s, [])"
| "run (a # as) s =
     (let (s1, es1) = step a s; (s2, es2) = run as s1 in (s2, es1 @ es2))"

fun feasible :: "action list \<Rightarrow> state \<Rightarrow> bool" where
  "feasible [] s = True"
| "feasible (a # as) s = (enabled a s \<and> feasible as (fst (step a s)))"

inductive reachable :: "state \<Rightarrow> bool" where
  init: "reachable initial"
| next_state: "reachable s \<Longrightarrow> enabled a s \<Longrightarrow> reachable (fst (step a s))"

definition is_push :: "action \<Rightarrow> bool" where
  "is_push a = (case a of Socket_event (NewMessage m) \<Rightarrow> True
                | Socket_event (NewMessages ms) \<Rightarrow> True | _ \<Rightarrow> False)"

text \<open>The messages an inbound event carries for the log.\<close>

fun pushed :: "socket_event \<Rightarrow> message list" where
  "pushed (NewMessage m) = [m]"
| "pushed (NewMessages ms) = ms"
| "pushed e = []"

text \<open>Sample runs used to instantiate the theorems below.\<close>

definition a_message :: message where
  "a_message = \<lparr>msg_type = TEXT, msg_sender = None, msg_content = Some ''hi'',
     msg_file = None, msg_sentAt = 0\<rparr>"

definition connect_run :: "action list" where
  "connect_run = [Type_authToken ''T1'', Run_useEffect None 0, Socket_event Ev_connect]"

definition connecting_state :: state where
  "connecting_state = fst (run [Type_authToken ''T1'', Run_useEffect None 0] initial)"

definition connected_state :: state where
  "connected_state = fst (run connect_run initial)"

definition in_room_state :: state where
  "in_room_state = fst (run (connect_run @ [Call_joinRoom ''r1'', Type_inputMessage ''hello'']) initial)"

section \<open>Reachable states\<close>

lemma reachable_run:
  "reachable s \<Longrightarrow> feasible as s \<Longrightarrow> reachable (fst (run as s))"
proof (induction as arbitrary: s)
  case Nil
  then show ?case by simp
next
  case (Cons a as)
  from Cons.prems have "reachable (fst (step a s))" and "feasible as (fst (step a s))"
    by (auto intro: reachable.next_state)
  then have "reachable (fst (run as (fst (step a s))))"
    by (rule Cons.IH)
  then show ?case
    by (simp add: case_prod_unfold Let_def)
qed

lemmas callback_defs =
  connectSocket_def useEffect_connect_def useEffect_cleanup_def useEffect_fetchUserInfo_def
  fetchUserInfo_resume_def fetchChatRooms_def fetchChatRooms_resume_def
  exitChatApplication_def sendTextMessage_def acknowledged_def sendFileMessage_def
  reader_onload_def reader_done_def leaveRoom_def joinRoom_def truthy_def

lemma connected_state_eq:
  "connected_state = initial\<lparr>socket := Some 0, authToken := ''T1'', isConnected := True\<rparr>"
  by (simp add: connected_state_def connect_run_def callback_defs initial_def)

lemma connecting_state_eq:
  "connecting_state = initial\<lparr>socket := Some 0, authToken := ''T1''\<rparr>"
  by (simp add: connecting_state_def callback_defs initial_def)

lemma in_room_state_eq:
  "in_room_state = initial\<lparr>socket := Some 0, authToken := ''T1'', isConnected := True,
     currentRoom := Some ''r1'', inputMessage := ''hello''\<rparr>"
  by (simp add: in_room_state_def connect_run_def callback_defs initial_def)

lemma reachable_connected_state: "reachable connected_state"
  unfolding connected_state_def
  by (rule reachable_run [OF reachable.init])
     (simp add: connect_run_def callback_defs initial_def)

lemma reachable_connecting_state: "reachable connecting_state"
  unfolding connecting_state_def
  by (rule reachable_run [OF reachable.init]) (simp add: callback_defs initial_def)

lemma reachable_in_room_state: "reachable in_room_state"
  unfolding in_room_state_def
  by (rule reachable_run [OF reachable.init])
     (simp add: connect_run_def callback_defs initial_def)

lemma on_event_socket: "socket (on_event e s) = socket s"
  by (cases e) simp_all

lemma on_event_currentRoom: "currentRoom (on_event e s) = currentRoom s"
  by (cases e) simp_all

lemma step_socket_kept:
  "socket s \<noteq> None \<Longrightarrow> socket (fst (step a s)) \<noteq> None"
  by (cases a) (auto simp: callback_defs on_event_socket
      split: option.splits reader_event.splits)

lemma reachable_connected_socket:
  "reachable s \<Longrightarrow> isConnected s \<Longrightarrow> socket s \<noteq> None"
proof (induction rule: reachable.induct)
  case init
  then show ?case by (simp add: initial_def)
next
  case (next_state s a)
  show ?case
  proof (cases "socket s = None")
    case False
    then show ?thesis by (rule step_socket_kept)
  next
    case True
    with next_state have off: "\<not> isConnected s" by auto
    from True next_state.hyps(2) have "\<not> isConnected (fst (step a s))"
      using off
      by (cases a) (auto simp: callback_defs split: option.splits reader_event.splits)
    with next_state.prems show ?thesis by simp
  qed
qed

lemma reachable_room_nonempty:
  "reachable s \<Longrightarrow> currentRoom s = Some r \<Longrightarrow> r \<noteq> []"
proof (induction arbitrary: r rule: reachable.induct)
  case init
  then show ?case by (simp add: initial_def)
next
  case (next_state s a)
  have keep: "\<forall>r. currentRoom s = Some r \<longrightarrow> r \<noteq> []"
    using next_state.IH by blast
  have "\<forall>r. currentRoom (fst (step a s)) = Some r \<longrightarrow> r \<noteq> []"
  proof (cases a)
    case (Socket_event e)
    then show ?thesis using keep by (simp add: on_event_currentRoom)
  qed (use keep in \<open>auto simp: callback_defs split: option.splits reader_event.splits if_splits\<close>)
  with next_state.prems show ?case by blast
qed

section \<open>Room membership\<close>

lemma joinRoom_from_room:
  assumes "socket s = Some h" and "currentRoom s = Some A" and "A \<noteq> []" and "B \<noteq> []"
  shows "joinRoom B s =
     (s\<lparr>currentRoom := Some B, messages := []\<rparr>,
      [Emit h (LeaveRoom A), Emit h (JoinRoom B)])"
  using assms by (simp add: joinRoom_def leaveRoom_def truthy_def)


text \<open>
  C1. In every reachable state whose connection flag is set and whose current room
  is \<open>A\<close>, \<open>joinRoom B\<close> with a non-empty \<open>B\<close> changes nothing but the current
  room, which becomes \<open>B\<close>, and the message log, which becomes empty; it emits
  exactly a leave-room event for \<open>A\<close> followed by a join-room event for \<open>B\<close>, both
  on the stored socket. \<open>B = A\<close> is not excluded.
\<close>

theorem joinRoom_switches_room:
  assumes "reachable s" and "isConnected s" and "currentRoom s = Some A" and "B \<noteq> []"
  shows "\<exists>h. socket s = Some h \<and>
           joinRoom B s =
             (s\<lparr>currentRoom := Some B, messages := []\<rparr>,
              [Emit h (LeaveRoom A), Emit h (JoinRoom B)])"
proof -
  from assms(1,2) obtain h where h: "socket s = Some h"
    using reachable_connected_socket by blast
  from assms(1,3) have "A \<noteq> []"
    by (rule reachable_room_nonempty)
  with h assms(3,4) show ?thesis
    by (simp add: joinRoom_from_room)
qed

theorem joinRoom_switches_room_witness:
  "reachable in_room_state \<and> isConnected in_room_state \<and>
   currentRoom in_room_state = Some ''r1'' \<and>
   (\<exists>h. socket in_room_state = Some h \<and>
      joinRoom ''r2'' in_room_state =
        (in_room_state\<lparr>currentRoom := Some ''r2'', messages := []\<rparr>,
         [Emit h (LeaveRoom ''r1''), Emit h (JoinRoom ''r2'')])) \<and>
   (\<exists>h. socket in_room_state = Some h \<and>
      joinRoom ''r1'' in_room_state =
        (in_room_state\<lparr>currentRoom := Some ''r1'', messages := []\<rparr>,
         [Emit h (LeaveRoom ''r1''), Emit h (JoinRoom ''r1'')]))"
proof -
  have conn: "isConnected in_room_state"
    and room: "currentRoom in_room_state = Some ''r1''"
    by (simp_all add: in_room_state_eq initial_def)
  have other: "''r2'' \<noteq> []" and same: "''r1'' \<noteq> []"
    by simp_all
  show ?thesis
    using reachable_in_room_state conn room
      joinRoom_switches_room [OF reachable_in_room_state conn room other]
      joinRoom_switches_room [OF reachable_in_room_state conn room same]
    by blast
qed

section \<open>No-op conditions of join and leave\<close>

text \<open>
  C3, as the code has it. \<open>joinRoom\<close> and \<open>leaveRoom\<close> test the socket handle, not
  the connection flag: with no handle stored, both emit nothing and leave the
  state as it is, whatever \<open>isConnected\<close> and the room identifier are.
\<close>

theorem join_leave_noop_without_socket:
  assumes "socket s = None"
  shows "joinRoom roomId s = (s, []) \<and> leaveRoom s = (s, [])"
  using assms by (simp add: joinRoom_def leaveRoom_def)

theorem join_leave_noop_without_socket_witness:
  "socket initial = None \<and> joinRoom ''r1'' initial = (initial, []) \<and>
   leaveRoom initial = (initial, [])"
proof -
  have none: "socket initial = None"
    by (simp add: initial_def)
  from join_leave_noop_without_socket [OF none, of "''r1''"] none show ?thesis
    by simp
qed

text \<open>
  C3 as stated fails: a socket that has been created but has not connected, or
  has disconnected, leaves \<open>isConnected\<close> false, and both callbacks still emit
  and change the state.
\<close>

theorem join_leave_not_connected_counterexample:
  "\<not> isConnected connecting_state \<and>
   joinRoom ''r1'' connecting_state =
     (connecting_state\<lparr>currentRoom := Some ''r1'', messages := []\<rparr>,
      [Emit 0 (JoinRoom ''r1'')]) \<and>
   joinRoom ''r1'' connecting_state \<noteq> (connecting_state, []) \<and>
   \<not> isConnected (on_event Ev_disconnect in_room_state) \<and>
   leaveRoom (on_event Ev_disconnect in_room_state) =
     ((on_event Ev_disconnect in_room_state)\<lparr>currentRoom := None, messages := []\<rparr>,
      [Emit 0 (LeaveRoom ''r1'')]) \<and>
   leaveRoom (on_event Ev_disconnect in_room_state) \<noteq> (on_event Ev_disconnect in_room_state, [])"
  by (simp add: connecting_state_eq in_room_state_eq initial_def joinRoom_def
      leaveRoom_def truthy_def)

section \<open>The message log outside a room\<close>

lemma step_push_keeps_room:
  "is_push a \<Longrightarrow> currentRoom (fst (step a s)) = currentRoom s"
  by (cases a) (simp_all add: is_push_def on_event_currentRoom)

text \<open>
  C2, as the code has it. The property "no current room implies an empty message
  log" holds initially and survives every operation and every inbound event
  except a single-message or batched-messages push that arrives while no room is
  current: the two push handlers append without looking at the current room.
\<close>

theorem log_empty_outside_room_preserved:
  "messages initial = [] \<and>
   (\<not> (is_push a \<and> currentRoom s = None) \<and> (currentRoom s = None \<longrightarrow> messages s = []) \<longrightarrow>
      (currentRoom (fst (step a s)) = None \<longrightarrow> messages (fst (step a s)) = []))"
proof -
  have kept: "currentRoom (fst (step a s)) = None \<longrightarrow> messages (fst (step a s)) = []"
    if stray: "\<not> (is_push a \<and> currentRoom s = None)"
      and inv: "currentRoom s = None \<longrightarrow> messages s = []"
  proof (cases "is_push a")
    case True
    with stray have "currentRoom s \<noteq> None" by simp
    moreover have "currentRoom (fst (step a s)) = currentRoom s"
      using True by (rule step_push_keeps_room)
    ultimately show ?thesis by auto
  next
    case False
    show ?thesis
    proof (cases a)
      case (Socket_event e)
      with False inv show ?thesis
        by (cases e) (simp_all add: is_push_def)
    qed (use inv in \<open>auto simp: callback_defs split: option.splits reader_event.splits\<close>)
  qed
  show ?thesis
  proof (intro conjI impI)
    show "messages initial = []"
      by (simp add: initial_def)
  next
    assume "\<not> (is_push a \<and> currentRoom s = None) \<and> (currentRoom s = None \<longrightarrow> messages s = [])"
      and "currentRoom (fst (step a s)) = None"
    then show "messages (fst (step a s)) = []"
      using kept by simp
  qed
qed

theorem log_empty_outside_room_preserved_witness:
  "\<not> (is_push Call_leaveRoom \<and> currentRoom (on_event (NewMessage a_message) in_room_state) = None) \<and>
   messages (on_event (NewMessage a_message) in_room_state) = [a_message] \<and>
   currentRoom (fst (step Call_leaveRoom (on_event (NewMessage a_message) in_room_state))) = None \<and>
   messages (fst (step Call_leaveRoom (on_event (NewMessage a_message) in_room_state))) = []"
proof -
  let ?s = "on_event (NewMessage a_message) in_room_state"
  have leave: "\<not> (is_push Call_leaveRoom \<and> currentRoom ?s = None)"
    by (simp add: is_push_def)
  have inside: "currentRoom ?s = None \<longrightarrow> messages ?s = []"
    by (simp add: in_room_state_eq initial_def)
  have left: "currentRoom (fst (step Call_leaveRoom ?s)) = None"
    by (simp add: in_room_state_eq initial_def leaveRoom_def truthy_def)
  have log: "messages ?s = [a_message]"
    by (simp add: in_room_state_eq initial_def)
  from log_empty_outside_room_preserved [of Call_leaveRoom ?s] left leave inside log
  show ?thesis by blast
qed

text \<open>
  C2 as stated fails: after connecting and before any join, a pushed message (or
  batch) is appended, which gives a reachable state with no current room and a
  non-empty log.
\<close>

theorem log_empty_outside_room_counterexample:
  "reachable (on_event (NewMessage a_message) connected_state) \<and>
   currentRoom (on_event (NewMessage a_message) connected_state) = None \<and>
   messages (on_event (NewMessage a_message) connected_state) = [a_message] \<and>
   reachable (on_event (NewMessages [a_message, a_message]) connected_state) \<and>
   currentRoom (on_event (NewMessages [a_message, a_message]) connected_state) = None \<and>
   messages (on_event (NewMessages [a_message, a_message]) connected_state)
     = [a_message, a_message]"
proof -
  have on: "enabled (Socket_event e) connected_state" for e
    by (simp add: connected_state_eq initial_def)
  have "reachable (fst (step (Socket_event e) connected_state))" for e
    by (rule reachable.next_state [OF reachable_connected_state on])
  then have pushed: "reachable (on_event e connected_state)" for e
    by simp
  have single: "currentRoom (on_event (NewMessage a_message) connected_state) = None \<and>
      messages (on_event (NewMessage a_message) connected_state) = [a_message]"
    by (simp add: connected_state_eq initial_def)
  have batch: "currentRoom (on_event (NewMessages [a_message, a_message]) connected_state) = None \<and>
      messages (on_event (NewMessages [a_message, a_message]) connected_state)
        = [a_message, a_message]"
    by (simp add: connected_state_eq initial_def)
  from pushed single batch show ?thesis
    by blast
qed

section \<open>Connections opened by connectSocket\<close>

text \<open>
  C4 evaluated on the code. The token is typed, the effect hook opens socket 0,
  and \<open>connectSocket\<close> is called again (the Connect button) before anything
  else: the second call opens socket 1 and overwrites the stored handle without
  disconnecting socket 0, so both are open afterwards.
\<close>

theorem connectSocket_keeps_previous_open:
  "run [Type_authToken ''T1'', Run_useEffect None 0, Call_connectSocket 1] initial =
     (initial\<lparr>authToken := ''T1'', socket := Some 1\<rparr>, [Io 0 ''T1'', Io 1 ''T1'']) \<and>
   feasible [Type_authToken ''T1'', Run_useEffect None 0, Call_connectSocket 1] initial \<and>
   connectSocket 1 connecting_state = (connecting_state\<lparr>socket := Some 1\<rparr>, [Io 1 ''T1'']) \<and>
   open_after []
     (snd (run [Type_authToken ''T1'', Run_useEffect None 0, Call_connectSocket 1] initial))
     = [0, 1]"
  by (simp add: connecting_state_eq connectSocket_def useEffect_connect_def initial_def
      open_after_def)

section \<open>Exit\<close>

text \<open>
  C5, as the code has it. From every state, reachable or not,
  \<open>exitChatApplication\<close> gives an empty credential, a cleared connection flag,
  no current room, an empty message log, no room summaries and no current user.
  It does not touch the socket handle, the input buffer and the file selection,
  so the result is the initial state with those three cells carried over, and
  it is the initial state exactly when the three already had their initial
  values. A second call returns the same state and does nothing but disconnect
  the stored socket once more.
\<close>

theorem exit_resets_and_is_idempotent:
  "authToken (fst (exitChatApplication s)) = [] \<and>
   isConnected (fst (exitChatApplication s)) = False \<and>
   currentRoom (fst (exitChatApplication s)) = None \<and>
   messages (fst (exitChatApplication s)) = [] \<and>
   chatRooms (fst (exitChatApplication s)) = [] \<and>
   currentUser (fst (exitChatApplication s)) = None \<and>
   fst (exitChatApplication s) =
     initial\<lparr>socket := socket s, inputMessage := inputMessage s, file := file s\<rparr> \<and>
   (fst (exitChatApplication s) = initial) =
     (socket s = None \<and> inputMessage s = [] \<and> file s = None) \<and>
   exitChatApplication (fst (exitChatApplication s)) =
     (fst (exitChatApplication s),
      (case socket s of None \<Rightarrow> [] | Some h \<Rightarrow> [Disconnect h]))"
proof -
  have carried: "fst (exitChatApplication s) =
      initial\<lparr>socket := socket s, inputMessage := inputMessage s, file := file s\<rparr>"
    by (simp add: exitChatApplication_def initial_def)
  have "(initial\<lparr>socket := socket s, inputMessage := inputMessage s, file := file s\<rparr>
      = initial) = (socket s = None \<and> inputMessage s = [] \<and> file s = None)"
    by (auto simp: initial_def)
  with carried have same: "(fst (exitChatApplication s) = initial) =
      (socket s = None \<and> inputMessage s = [] \<and> file s = None)"
    by simp
  have "authToken (fst (exitChatApplication s)) = [] \<and>
   isConnected (fst (exitChatApplication s)) = False \<and>
   currentRoom (fst (exitChatApplication s)) = None \<and>
   messages (fst (exitChatApplication s)) = [] \<and>
   chatRooms (fst (exitChatApplication s)) = [] \<and>
   currentUser (fst (exitChatApplication s)) = None \<and>
   exitChatApplication (fst (exitChatApplication s)) =
     (fst (exitChatApplication s),
      (case socket s of None \<Rightarrow> [] | Some h \<Rightarrow> [Disconnect h]))"
    by (simp add: exitChatApplication_def)
  with carried same show ?thesis
    by blast
qed

text \<open>
  C5 as stated fails: after a connection has been made, the exit keeps the socket
  handle, so the state it yields is not the initial state; the same holds with a
  text left in the input buffer.
\<close>

theorem exit_yields_initial_counterexample:
  "reachable connected_state \<and>
   fst (exitChatApplication connected_state) \<noteq> initial \<and>
   socket (fst (exitChatApplication connected_state)) = Some 0 \<and>
   socket initial = None \<and>
   reachable in_room_state \<and>
   fst (exitChatApplication in_room_state) \<noteq> initial \<and>
   inputMessage (fst (exitChatApplication in_room_state)) = ''hello''"
proof -
  have handle: "socket (fst (exitChatApplication connected_state)) = Some 0"
    by (simp add: exitChatApplication_def connected_state_eq initial_def)
  have buffer: "inputMessage (fst (exitChatApplication in_room_state)) = ''hello''"
    by (simp add: exitChatApplication_def in_room_state_eq initial_def)
  have none: "socket initial = None" and blank: "inputMessage initial = []"
    by (simp_all add: initial_def)
  from handle none have "fst (exitChatApplication connected_state) \<noteq> initial"
    by auto
  moreover from buffer blank have "fst (exitChatApplication in_room_state) \<noteq> initial"
    by auto
  ultimately show ?thesis
    using reachable_connected_state reachable_in_room_state handle buffer none
    by blast
qed

text \<open>
  C9. \<open>exitChatApplication\<close> leaves the socket handle as it was, so with a handle
  \<open>h\<close> stored, \<open>joinRoom\<close> with a non-empty room identifier right after the exit
  emits a join-room event on \<open>h\<close> (and nothing else) and makes that room current.
\<close>

theorem exit_keeps_socket_handle:
  "socket (fst (exitChatApplication s)) = socket s \<and>
   (socket s = Some h \<and> roomId \<noteq> [] \<longrightarrow>
      joinRoom roomId (fst (exitChatApplication s)) =
        ((fst (exitChatApplication s))\<lparr>currentRoom := Some roomId, messages := []\<rparr>,
         [Emit h (JoinRoom roomId)]) \<and>
      currentRoom (fst (joinRoom roomId (fst (exitChatApplication s)))) = Some roomId)"
  by (simp add: exitChatApplication_def joinRoom_def truthy_def)

theorem exit_keeps_socket_handle_witness:
  "socket connected_state = Some 0 \<and> ''r1'' \<noteq> [] \<and>
   socket (fst (exitChatApplication connected_state)) = Some 0 \<and>
   joinRoom ''r1'' (fst (exitChatApplication connected_state)) =
     ((fst (exitChatApplication connected_state))\<lparr>currentRoom := Some ''r1'', messages := []\<rparr>,
      [Emit 0 (JoinRoom ''r1'')])"
proof -
  have handle: "socket connected_state = Some 0"
    by (simp add: connected_state_eq initial_def)
  have name: "''r1'' \<noteq> []"
    by simp
  from exit_keeps_socket_handle [of connected_state 0 "''r1''"] handle name
  show ?thesis by simp
qed

text \<open>
  C10. The only effect of \<open>exitChatApplication\<close> is the disconnect of the stored
  socket, if there is one; whatever the current room, no leave-room event is
  emitted.
\<close>

theorem exit_emits_no_leave:
  "snd (exitChatApplication s) = (case socket s of None \<Rightarrow> [] | Some h \<Rightarrow> [Disconnect h]) \<and>
   (\<forall>h x. Emit h (LeaveRoom x) \<notin> set (snd (exitChatApplication s)))"
  by (simp add: exitChatApplication_def split: option.splits)

section \<open>Inbound messages\<close>

lemma on_event_messages: "messages (on_event e s) = messages s @ pushed e"
  by (cases e) simp_all

lemma run_events_messages:
  "messages (fst (run (map Socket_event evs) s)) = messages s @ concat (map pushed evs)"
proof (induction evs arbitrary: s)
  case Nil
  then show ?case by simp
next
  case (Cons e evs)
  have "messages (fst (run (map Socket_event (e # evs)) s))
      = messages (fst (run (map Socket_event evs) (on_event e s)))"
    by (simp add: case_prod_unfold)
  also have "\<dots> = messages (on_event e s) @ concat (map pushed evs)"
    by (rule Cons.IH)
  finally show ?case
    by (simp add: on_event_messages)
qed

text \<open>
  C6. A batched-messages event carrying \<open>B\<close> turns the log \<open>L\<close> into \<open>L @ B\<close> and
  a single-message event carrying \<open>m\<close> turns it into \<open>L @ [m]\<close>; nothing else
  in the state changes and nothing is emitted. Over a sequence of inbound events
  the log grows by their messages in the order of delivery.
\<close>

theorem pushes_append_in_order:
  "step (Socket_event (NewMessages B)) s = (s\<lparr>messages := messages s @ B\<rparr>, []) \<and>
   step (Socket_event (NewMessage m)) s = (s\<lparr>messages := messages s @ [m]\<rparr>, []) \<and>
   messages (fst (run (map Socket_event evs) s)) = messages s @ concat (map pushed evs)"
  by (simp add: run_events_messages)

section \<open>Sending text\<close>

text \<open>
  C7. With an empty input text, or with no current room, \<open>sendTextMessage\<close> emits
  nothing and returns the state as it was. In a reachable state whose connection
  flag is set, with current room \<open>r\<close> and a non-empty input text, it emits exactly
  one text-send event carrying \<open>r\<close> and the text, and clears the input buffer in
  the same call; the acknowledgment callback changes nothing afterwards.
\<close>

theorem sendTextMessage_gate:
  "(inputMessage s = [] \<or> currentRoom s = None \<longrightarrow> sendTextMessage s = (s, [])) \<and>
   (reachable s \<and> isConnected s \<and> currentRoom s = Some r \<and> inputMessage s \<noteq> [] \<longrightarrow>
      (\<exists>h. socket s = Some h \<and>
         sendTextMessage s =
           (s\<lparr>inputMessage := []\<rparr>, [Emit h (SendTextMessage r (inputMessage s))])) \<and>
      acknowledged response (fst (sendTextMessage s)) = (fst (sendTextMessage s), []))"
proof -
  have blocked: "inputMessage s = [] \<or> currentRoom s = None \<longrightarrow> sendTextMessage s = (s, [])"
    by (auto simp: sendTextMessage_def truthy_def)
  have sent: "\<exists>h. socket s = Some h \<and>
         sendTextMessage s =
           (s\<lparr>inputMessage := []\<rparr>, [Emit h (SendTextMessage r (inputMessage s))])"
    if "reachable s" "isConnected s" "currentRoom s = Some r" "inputMessage s \<noteq> []"
  proof -
    from that(1,2) obtain h where "socket s = Some h"
      using reachable_connected_socket by blast
    moreover from that(1,3) have "r \<noteq> []"
      by (rule reachable_room_nonempty)
    ultimately show ?thesis
      using that(3,4) by (simp add: sendTextMessage_def truthy_def)
  qed
  have "acknowledged response (fst (sendTextMessage s)) = (fst (sendTextMessage s), [])"
    by (simp add: acknowledged_def)
  with blocked sent show ?thesis
    by blast
qed

theorem sendTextMessage_gate_witness:
  "inputMessage connected_state = [] \<and> currentRoom connected_state = None \<and>
   sendTextMessage connected_state = (connected_state, []) \<and>
   currentRoom (connected_state\<lparr>inputMessage := ''hi''\<rparr>) = None \<and>
   sendTextMessage (connected_state\<lparr>inputMessage := ''hi''\<rparr>)
     = (connected_state\<lparr>inputMessage := ''hi''\<rparr>, []) \<and>
   reachable in_room_state \<and> isConnected in_room_state \<and>
   currentRoom in_room_state = Some ''r1'' \<and> inputMessage in_room_state = ''hello'' \<and>
   (\<exists>h. socket in_room_state = Some h \<and>
      sendTextMessage in_room_state =
        (in_room_state\<lparr>inputMessage := []\<rparr>, [Emit h (SendTextMessage ''r1'' ''hello'')]))"
proof -
  have empty: "inputMessage connected_state = []"
    and no_room: "currentRoom connected_state = None"
    and no_room': "currentRoom (connected_state\<lparr>inputMessage := ''hi''\<rparr>) = None"
    by (simp_all add: connected_state_eq initial_def)
  have conn: "isConnected in_room_state"
    and room: "currentRoom in_room_state = Some ''r1''"
    and typed: "inputMessage in_room_state = ''hello''"
    by (simp_all add: in_room_state_eq initial_def)
  from sendTextMessage_gate [of connected_state] empty
  have first: "sendTextMessage connected_state = (connected_state, [])"
    by blast
  from sendTextMessage_gate [of "connected_state\<lparr>inputMessage := ''hi''\<rparr>"] no_room'
  have second: "sendTextMessage (connected_state\<lparr>inputMessage := ''hi''\<rparr>)
      = (connected_state\<lparr>inputMessage := ''hi''\<rparr>, [])"
    by blast
  from sendTextMessage_gate [of in_room_state "''r1''"] reachable_in_room_state conn room typed
  have third: "\<exists>h. socket in_room_state = Some h \<and>
      sendTextMessage in_room_state =
        (in_room_state\<lparr>inputMessage := []\<rparr>, [Emit h (SendTextMessage ''r1'' ''hello'')])"
    by simp
  from empty no_room no_room' first second reachable_in_room_state conn room typed third
  show ?thesis by blast
qed

section \<open>Sending a file\<close>

text \<open>
  C8. When the read ends in an error, or \<open>onload\<close> runs with no target or no
  result, nothing is emitted and the state, the file selection included, stays
  as it was; starting the read changes no state and emits no socket event
  either. The selection is cleared only in the branch of \<open>onload\<close> that has a
  result and emits the file-send event.
\<close>

theorem file_read_failure_abandons_send:
  "reader_done p OnError s = (s, []) \<and>
   reader_done p (OnLoad None) s = (s, []) \<and>
   reader_done p (OnLoad (Some None)) s = (s, []) \<and>
   fst (sendFileMessage s) = s \<and>
   (\<forall>h e. Emit h e \<notin> set (snd (sendFileMessage s))) \<and>
   reader_done p (OnLoad (Some (Some arrayBuffer))) s =
     (s\<lparr>file := None\<rparr>,
      [Emit (pr_socket p)
         (SendFileMessage (pr_room p) (fileName (pr_file p)) (fileType (pr_file p))
            (fileSize (pr_file p)) arrayBuffer)])"
  by (simp add: reader_done_def reader_onload_def sendFileMessage_def)

end
